theory Spec2Isabelle
  imports Main "HOL-Library.Word"
begin

section \<open>The identifier builder (Utils/IDMapper.py)\<close>

text \<open>
  A Python \<open>str\<close> is a finite sequence of code points. The mapper only hashes and
  compares its keys, so the character type is left as a type variable \<open>'c\<close>: it is
  \<open>char\<close> for byte strings such as \<open>''NewYork''\<close> and \<open>nat\<close> for sequences of
  Unicode code points. Python integers are unbounded: internal ids are \<open>int\<close>.
\<close>

datatype py_error = KeyError | IndexError

text \<open>
  The two fields of the class: \<open>_str_to_int\<close>, a \<open>dict[str, int]\<close>, and
  \<open>_int_to_str\<close>, a \<open>list[str]\<close>.
\<close>

record 'c IDMapper =
  str_to_int :: "'c list \<rightharpoonup> int"
  int_to_str :: "'c list list"

text \<open>\<open>__init__\<close>: both containers start empty.\<close>

definition IDMapper_init :: "'c IDMapper" where
  "IDMapper_init = \<lparr>str_to_int = Map.empty, int_to_str = []\<rparr>"

text \<open>
  \<open>get_or_create\<close> returns the id and the mapper after the call. A key already in the
  dict leaves the mapper as it is; otherwise the new id is the length of the list, the dict
  gets the new entry and the list is extended at its end.
\<close>

definition get_or_create :: "'c IDMapper \<Rightarrow> 'c list \<Rightarrow> int \<times> 'c IDMapper" where
  "get_or_create self external_id =
     (case str_to_int self external_id of
        Some i \<Rightarrow> (i, self)
      | None \<Rightarrow>
          (let new_id = int (length (int_to_str self))
           in (new_id,
               self\<lparr>str_to_int := (str_to_int self)(external_id \<mapsto> new_id),
                    int_to_str := int_to_str self @ [external_id]\<rparr>)))"

text \<open>\<open>to_internal\<close>: a dict subscript, which raises \<open>KeyError\<close> on a missing key.\<close>

definition to_internal :: "'c IDMapper \<Rightarrow> 'c list \<Rightarrow> py_error + int" where
  "to_internal self external_id =
     (case str_to_int self external_id of
        None \<Rightarrow> Inl KeyError
      | Some i \<Rightarrow> Inr i)"

text \<open>
  Python's list subscript \<open>xs[i]\<close>: an index from \<open>-len(xs)\<close> up to \<open>-1\<close> counts
  from the end of the list, an index from \<open>0\<close> up to \<open>len(xs) - 1\<close> from its start, and
  every other index raises \<open>IndexError\<close>.
\<close>

definition list_getitem :: "'a list \<Rightarrow> int \<Rightarrow> py_error + 'a" where
  "list_getitem xs i =
     (if - int (length xs) \<le> i \<and> i < 0 then Inr (xs ! nat (int (length xs) + i))
      else if 0 \<le> i \<and> i < int (length xs) then Inr (xs ! nat i)
      else Inl IndexError)"

text \<open>\<open>to_external\<close>: the explicit guard against a negative id, then the list subscript.\<close>

definition to_external :: "'c IDMapper \<Rightarrow> int \<Rightarrow> py_error + 'c list" where
  "to_external self internal_id =
     (if internal_id < 0 then Inl IndexError
      else list_getitem (int_to_str self) internal_id)"

definition contains_external :: "'c IDMapper \<Rightarrow> 'c list \<Rightarrow> bool" where
  "contains_external self external_id = (str_to_int self external_id \<noteq> None)"

definition contains_internal :: "'c IDMapper \<Rightarrow> int \<Rightarrow> bool" where
  "contains_internal self internal_id =
     (0 \<le> internal_id \<and> internal_id < int (length (int_to_str self)))"

definition size_IDMapper :: "'c IDMapper \<Rightarrow> int" where
  "size_IDMapper self = int (length (int_to_str self))"

text \<open>
  The construction pipeline: a sequence of \<open>get_or_create\<close> calls, in order, on one
  mapper. The result is the list of returned ids and the mapper after the last call.
  No other method of the class changes a field, so the mappers a program can hold are those
  \<open>get_or_create_all IDMapper_init xs\<close> reaches.
\<close>

fun get_or_create_all :: "'c IDMapper \<Rightarrow> 'c list list \<Rightarrow> int list \<times> 'c IDMapper" where
  "get_or_create_all self [] = ([], self)"
| "get_or_create_all self (x # xs) =
     (case get_or_create self x of
        (i, self') \<Rightarrow>
          (case get_or_create_all self' xs of
             (ids, self'') \<Rightarrow> (i # ids, self'')))"

text \<open>The mapper a fresh one becomes under the calls \<open>xs\<close>.\<close>

definition built :: "'c list list \<Rightarrow> 'c IDMapper" where
  "built xs = snd (get_or_create_all IDMapper_init xs)"

text \<open>
  The invariant of the data model: position \<open>i\<close> of the list holds \<open>x\<close> exactly when
  the dict maps \<open>x\<close> to \<open>i\<close>.
\<close>

definition IDMapper_inv :: "'c IDMapper \<Rightarrow> bool" where
  "IDMapper_inv self \<longleftrightarrow>
     (\<forall>x i. str_to_int self x = Some i \<longleftrightarrow>
        (0 \<le> i \<and> nat i < length (int_to_str self) \<and> int_to_str self ! nat i = x))"

section \<open>Object identity: \<open>export_mappings\<close>\<close>

text \<open>
  \<open>export_mappings\<close> returns \<open>self._str_to_int.copy()\<close>. Whether the caller's dict and
  the builder's dict are one object or two is invisible in a model that passes values, so
  this section keeps the dict objects in a store: an address is a position of the store,
  and allocating appends. The builder holds the address of its dict; its list of strings
  never leaves the object and stays a value.
\<close>

type_synonym 'c dict = "'c list \<rightharpoonup> int"

type_synonym 'c store = "'c dict list"

record 'c IDMapper_obj =
  str_to_int_ref :: nat
  int_to_str_val :: "'c list list"

text \<open>The mapper an object stands for: its dict read from the store.\<close>

definition load :: "'c store \<Rightarrow> 'c IDMapper_obj \<Rightarrow> 'c IDMapper" where
  "load s self = \<lparr>str_to_int = s ! str_to_int_ref self, int_to_str = int_to_str_val self\<rparr>"

text \<open>\<open>__init__\<close> allocates the empty dict.\<close>

definition IDMapper_obj_init :: "'c store \<Rightarrow> 'c store \<times> 'c IDMapper_obj" where
  "IDMapper_obj_init s = (s @ [Map.empty], \<lparr>str_to_int_ref = length s, int_to_str_val = []\<rparr>)"

text \<open>
  \<open>get_or_create\<close> on the object: the dict is updated in place, at the address the builder
  holds, and the list is extended.
\<close>

definition obj_get_or_create ::
  "'c store \<Rightarrow> 'c IDMapper_obj \<Rightarrow> 'c list \<Rightarrow> int \<times> 'c store \<times> 'c IDMapper_obj" where
  "obj_get_or_create s self external_id =
     (case get_or_create (load s self) external_id of
        (i, m) \<Rightarrow>
          (i, s[str_to_int_ref self := str_to_int m], self\<lparr>int_to_str_val := int_to_str m\<rparr>))"

text \<open>
  \<open>export_mappings\<close>: \<open>dict.copy()\<close> allocates a new dict with the items of the builder's
  dict and returns its address.
\<close>

definition export_mappings :: "'c store \<Rightarrow> 'c IDMapper_obj \<Rightarrow> nat \<times> 'c store" where
  "export_mappings s self = (length s, s @ [s ! str_to_int_ref self])"

text \<open>
  What the caller may do to the dict at address \<open>r\<close>: any change \<open>f\<close> of its items
  (setting, deleting, clearing).
\<close>

definition dict_mutate :: "'c store \<Rightarrow> nat \<Rightarrow> ('c dict \<Rightarrow> 'c dict) \<Rightarrow> 'c store" where
  "dict_mutate s r f = s[r := f (s ! r)]"

text \<open>
  What may happen after the export, in any order: the caller changes the returned dict, or
  the pipeline calls \<open>get_or_create\<close> on the builder.
\<close>

datatype 'c action = Mutate_exported "'c dict \<Rightarrow> 'c dict" | Call_get_or_create "'c list"

fun after_export ::
  "nat \<Rightarrow> 'c store \<times> 'c IDMapper_obj \<Rightarrow> 'c action list \<Rightarrow> 'c store \<times> 'c IDMapper_obj" where
  "after_export r (s, self) [] = (s, self)"
| "after_export r (s, self) (Mutate_exported f # acts) =
     after_export r (dict_mutate s r f, self) acts"
| "after_export r (s, self) (Call_get_or_create x # acts) =
     after_export r (snd (obj_get_or_create s self x)) acts"

text \<open>The two projections of such a history: the builder's calls, and the caller's changes.\<close>

fun builder_calls :: "'c action list \<Rightarrow> 'c list list" where
  "builder_calls [] = []"
| "builder_calls (Mutate_exported f # acts) = builder_calls acts"
| "builder_calls (Call_get_or_create x # acts) = x # builder_calls acts"

fun mutations :: "'c action list \<Rightarrow> 'c dict \<Rightarrow> 'c dict" where
  "mutations [] d = d"
| "mutations (Mutate_exported f # acts) d = mutations acts (f d)"
| "mutations (Call_get_or_create x # acts) d = mutations acts d"

section \<open>The sorted external id index (TestTaroModel.py, \<open>test_id_mapping_binary_search\<close>)\<close>

text \<open>The table \<open>IdMapping\<close> of the serialized model: a vector of 64-bit integers.\<close>

record IdMapping =
  external_ids :: "64 word list"

text \<open>
  Modelled from the spec: the accessor \<open>ExternalIdsLength\<close> of the generated module
  \<open>taro.model.IdMapping\<close>, which is not among the sources. The spec gives
  \<open>external_ids: ordered sequence of int64\<close>; the accessor is the length of the sequence.
\<close>

definition ExternalIdsLength :: "IdMapping \<Rightarrow> int" where
  "ExternalIdsLength mapping = int (length (external_ids mapping))"

text \<open>
  Modelled from the spec: the accessor \<open>ExternalIds\<close> of the same generated module, not
  among the sources either. It is the element of the sequence at a position, read as a
  signed 64-bit value. A position outside the sequence is an error.
\<close>

definition ExternalIds :: "IdMapping \<Rightarrow> int \<Rightarrow> py_error + int" where
  "ExternalIds mapping j =
     (if 0 \<le> j \<and> j < int (length (external_ids mapping))
      then Inr (sint (external_ids mapping ! nat j))
      else Inl IndexError)"

text \<open>
  The \<open>while left <= right\<close> loop of \<open>find_internal_id\<close>; \<open>//\<close> is Python's floor
  division, as \<open>div\<close> on \<open>int\<close> is.
\<close>

function find_internal_id_loop :: "IdMapping \<Rightarrow> int \<Rightarrow> int \<Rightarrow> int \<Rightarrow> py_error + int" where
  "find_internal_id_loop mapping ext_id left right =
     (if left \<le> right then
        (let mid = (left + right) div 2 in
         case ExternalIds mapping mid of
           Inl e \<Rightarrow> Inl e
         | Inr mid_val \<Rightarrow>
             if mid_val = ext_id then Inr mid
             else if mid_val < ext_id then find_internal_id_loop mapping ext_id (mid + 1) right
             else find_internal_id_loop mapping ext_id left (mid - 1))
      else Inr (- 1))"
  by pat_completeness auto
termination
  by (relation "measure (\<lambda>(mapping, ext_id, left, right). nat (right - left + 1))") auto

declare find_internal_id_loop.simps [simp del]

definition find_internal_id :: "IdMapping \<Rightarrow> int \<Rightarrow> py_error + int" where
  "find_internal_id mapping ext_id =
     find_internal_id_loop mapping ext_id 0 (ExternalIdsLength mapping - 1)"

text \<open>The vector the test serializes.\<close>

definition test_mapping :: IdMapping where
  "test_mapping = \<lparr>external_ids = [100, 200, 300, 400, 500]\<rparr>"

section \<open>The CSR topology (TestTaroModel.py, \<open>test_csr_graph_traversal\<close>)\<close>

text \<open>
  The two integer vectors of the table \<open>GraphTopology\<close> that the traversal reads. The
  weights and coordinates are floating point and play no part in it.
\<close>

record GraphTopology =
  first_edge :: "32 word list"
  edge_target :: "32 word list"

text \<open>
  Modelled from the spec: the accessor \<open>FirstEdge\<close> of the generated module
  \<open>taro.model.GraphTopology\<close>, which is not among the sources. The spec gives
  \<open>first_edge\<close> as an ordered sequence of uint32 and its accessors as direct array reads:
  the element at a position, read as an unsigned 32-bit value. A position outside the
  sequence is an error. (The test writes the vector as int32; its values are small
  enough that the signed and the unsigned reading agree.)
\<close>

definition FirstEdge :: "GraphTopology \<Rightarrow> int \<Rightarrow> py_error + int" where
  "FirstEdge topo j =
     (if 0 \<le> j \<and> j < int (length (first_edge topo))
      then Inr (uint (first_edge topo ! nat j))
      else Inl IndexError)"

text \<open>
  Modelled from the spec: the accessor \<open>EdgeTarget\<close> of the same generated module, not
  among the sources either: the element of \<open>edge_target\<close>, an ordered sequence of uint32,
  at a position. A position outside the sequence is an error.
\<close>

definition EdgeTarget :: "GraphTopology \<Rightarrow> int \<Rightarrow> py_error + int" where
  "EdgeTarget topo j =
     (if 0 \<le> j \<and> j < int (length (edge_target topo))
      then Inr (uint (edge_target topo ! nat j))
      else Inl IndexError)"

text \<open>
  The test's two reads for a node, \<open>FirstEdge(node)\<close> and \<open>FirstEdge(node + 1)\<close>: the
  half-open range of its edges.
\<close>

definition neighbor_range :: "GraphTopology \<Rightarrow> int \<Rightarrow> py_error + int \<times> int" where
  "neighbor_range topo node =
     (case FirstEdge topo node of
        Inl e \<Rightarrow> Inl e
      | Inr node_start \<Rightarrow>
          (case FirstEdge topo (node + 1) of
             Inl e \<Rightarrow> Inl e
           | Inr node_end \<Rightarrow> Inr (node_start, node_end)))"

text \<open>
  The test's loop \<open>for i in range(node_start, node_end)\<close>, which appends \<open>EdgeTarget(i)\<close>
  to the list of neighbours.
\<close>

fun append_targets :: "GraphTopology \<Rightarrow> int list \<Rightarrow> int list \<Rightarrow> py_error + int list" where
  "append_targets topo [] node_neighbors = Inr node_neighbors"
| "append_targets topo (i # rest) node_neighbors =
     (case EdgeTarget topo i of
        Inl e \<Rightarrow> Inl e
      | Inr t \<Rightarrow> append_targets topo rest (node_neighbors @ [t]))"

definition neighbors :: "GraphTopology \<Rightarrow> int \<Rightarrow> py_error + int list" where
  "neighbors topo node =
     (case neighbor_range topo node of
        Inl e \<Rightarrow> Inl e
      | Inr (node_start, node_end) \<Rightarrow> append_targets topo [node_start..node_end - 1] [])"

text \<open>The graph of the test: \<open>0->[1,2], 1->[2], 2->[3], 3->[]\<close>.\<close>

definition test_topology :: GraphTopology where
  "test_topology = \<lparr>first_edge = [0, 2, 3, 4, 4], edge_target = [1, 2, 2, 3]\<rparr>"

section \<open>Properties of the identifier builder\<close>

subsection \<open>One call\<close>

lemma get_or_create_maps:
  "str_to_int (snd (get_or_create m x)) x = Some (fst (get_or_create m x))"
  by (simp add: get_or_create_def Let_def split: option.split)

lemma get_or_create_keeps:
  "str_to_int m z = Some i \<Longrightarrow> str_to_int (snd (get_or_create m x)) z = Some i"
  by (auto simp: get_or_create_def Let_def split: option.split)

lemma get_or_create_dom:
  "dom (str_to_int (snd (get_or_create m x))) = insert x (dom (str_to_int m))"
  by (auto simp: get_or_create_def Let_def split: option.splits)

lemma IDMapper_inv_init: "IDMapper_inv IDMapper_init"
  by (simp add: IDMapper_inv_def IDMapper_init_def)

lemma IDMapper_inv_step:
  assumes "IDMapper_inv m"
  shows "IDMapper_inv (snd (get_or_create m x))"
proof (cases "str_to_int m x")
  case (Some i)
  then show ?thesis using assms by (simp add: get_or_create_def)
next
  case None
  have fresh: "\<And>j. nat j < length (int_to_str m) \<Longrightarrow> 0 \<le> j \<Longrightarrow> int_to_str m ! nat j \<noteq> x"
  proof
    fix j assume "nat j < length (int_to_str m)" "0 \<le> j" "int_to_str m ! nat j = x"
    with assms have "str_to_int m x = Some j" by (simp add: IDMapper_inv_def)
    with None show False by simp
  qed
  show ?thesis
    unfolding IDMapper_inv_def
  proof (intro allI)
    fix z i
    let ?m' = "snd (get_or_create m x)"
    have m': "str_to_int ?m' = (str_to_int m)(x \<mapsto> int (length (int_to_str m)))"
      "int_to_str ?m' = int_to_str m @ [x]"
      using None by (simp_all add: get_or_create_def Let_def)
    show "str_to_int ?m' z = Some i \<longleftrightarrow>
          (0 \<le> i \<and> nat i < length (int_to_str ?m') \<and> int_to_str ?m' ! nat i = z)"
    proof (cases "0 \<le> i \<and> nat i < length (int_to_str m)")
      case True
      then have "int_to_str ?m' ! nat i = int_to_str m ! nat i"
        by (simp add: m' nth_append)
      moreover have "i \<noteq> int (length (int_to_str m))" using True by auto
      moreover have "str_to_int m z = Some i \<longleftrightarrow> int_to_str m ! nat i = z"
        using assms True by (simp add: IDMapper_inv_def)
      ultimately show ?thesis using True fresh [of i] by (auto simp: m')
    next
      case False
      then have old: "str_to_int m z \<noteq> Some i"
        using assms by (auto simp: IDMapper_inv_def)
      show ?thesis
      proof (cases "i = int (length (int_to_str m))")
        case True
        then show ?thesis using old None by (auto simp: m')
      next
        case False
        with \<open>\<not> (0 \<le> i \<and> nat i < length (int_to_str m))\<close>
        have "\<not> (0 \<le> i \<and> nat i < length (int_to_str ?m'))" by (auto simp: m')
        then show ?thesis using old False by (auto simp: m')
      qed
    qed
  qed
qed

subsection \<open>A sequence of calls\<close>

lemma get_or_create_all_fst:
  "fst (get_or_create_all m (x # xs)) =
     fst (get_or_create m x) # fst (get_or_create_all (snd (get_or_create m x)) xs)"
  by (simp add: split_beta)

lemma get_or_create_all_snd:
  "snd (get_or_create_all m (x # xs)) = snd (get_or_create_all (snd (get_or_create m x)) xs)"
  by (simp add: split_beta)

lemma get_or_create_all_length: "length (fst (get_or_create_all m xs)) = length xs"
  by (induction xs arbitrary: m) (simp_all add: split_beta)

lemma get_or_create_all_keeps:
  "str_to_int m z = Some i \<Longrightarrow> str_to_int (snd (get_or_create_all m xs)) z = Some i"
proof (induction xs arbitrary: m)
  case Nil
  then show ?case by simp
next
  case (Cons x xs)
  from Cons.prems have "str_to_int (snd (get_or_create m x)) z = Some i"
    by (rule get_or_create_keeps)
  then have "str_to_int (snd (get_or_create_all (snd (get_or_create m x)) xs)) z = Some i"
    by (rule Cons.IH)
  then show ?case by (simp add: get_or_create_all_fst get_or_create_all_snd del: get_or_create_all.simps)
qed

lemma get_or_create_all_maps:
  "k < length xs \<Longrightarrow>
   str_to_int (snd (get_or_create_all m xs)) (xs ! k) = Some (fst (get_or_create_all m xs) ! k)"
proof (induction xs arbitrary: m k)
  case Nil
  then show ?case by simp
next
  case (Cons x xs)
  let ?m' = "snd (get_or_create m x)"
  show ?case
  proof (cases k)
    case 0
    have "str_to_int (snd (get_or_create_all ?m' xs)) x = Some (fst (get_or_create m x))"
      by (rule get_or_create_all_keeps) (rule get_or_create_maps)
    then show ?thesis using 0 by (simp add: get_or_create_all_fst get_or_create_all_snd del: get_or_create_all.simps)
  next
    case (Suc n)
    with Cons.prems have "n < length xs" by simp
    then have "str_to_int (snd (get_or_create_all ?m' xs)) (xs ! n)
               = Some (fst (get_or_create_all ?m' xs) ! n)"
      by (rule Cons.IH)
    then show ?thesis using Suc by (simp add: get_or_create_all_fst get_or_create_all_snd del: get_or_create_all.simps)
  qed
qed

lemma get_or_create_all_inv:
  "IDMapper_inv m \<Longrightarrow> IDMapper_inv (snd (get_or_create_all m xs))"
proof (induction xs arbitrary: m)
  case Nil
  then show ?case by simp
next
  case (Cons x xs)
  from Cons.prems have "IDMapper_inv (snd (get_or_create m x))"
    by (rule IDMapper_inv_step)
  then have "IDMapper_inv (snd (get_or_create_all (snd (get_or_create m x)) xs))"
    by (rule Cons.IH)
  then show ?case by (simp add: get_or_create_all_fst get_or_create_all_snd del: get_or_create_all.simps)
qed

lemma get_or_create_all_dom:
  "dom (str_to_int (snd (get_or_create_all m xs))) = dom (str_to_int m) \<union> set xs"
proof (induction xs arbitrary: m)
  case Nil
  then show ?case by simp
next
  case (Cons x xs)
  have "dom (str_to_int (snd (get_or_create_all (snd (get_or_create m x)) xs)))
        = insert x (dom (str_to_int m)) \<union> set xs"
    by (simp add: Cons.IH get_or_create_dom)
  then show ?case by (simp add: get_or_create_all_fst get_or_create_all_snd del: get_or_create_all.simps)
qed

lemma get_or_create_all_append:
  "get_or_create_all m (xs @ ys) =
     (case get_or_create_all m xs of
        (ids, m') \<Rightarrow>
          (case get_or_create_all m' ys of (ids', m'') \<Rightarrow> (ids @ ids', m'')))"
  by (induction xs arbitrary: m) (simp_all add: split_beta)

lemma get_or_create_all_nth:
  assumes "k < length xs"
  shows "fst (get_or_create_all m xs) ! k
         = fst (get_or_create (snd (get_or_create_all m (take k xs))) (xs ! k))"
proof -
  have xs: "xs = take k xs @ (xs ! k # drop (Suc k) xs)"
    using assms by (simp add: id_take_nth_drop)
  have len: "length (fst (get_or_create_all m (take k xs))) = k"
    using assms by (simp add: get_or_create_all_length)
  have "fst (get_or_create_all m (take k xs @ (xs ! k # drop (Suc k) xs))) ! k
        = fst (get_or_create (snd (get_or_create_all m (take k xs))) (xs ! k))"
    using len by (simp add: get_or_create_all_append nth_append split_beta)
  with xs show ?thesis by simp
qed

lemma IDMapper_inv_distinct: "IDMapper_inv m \<Longrightarrow> distinct (int_to_str m)"
  unfolding distinct_conv_nth IDMapper_inv_def
proof (intro allI impI)
  fix i j
  assume inv: "\<forall>x i. (str_to_int m x = Some i) = (0 \<le> i \<and> nat i < length (int_to_str m) \<and> int_to_str m ! nat i = x)"
    and "i < length (int_to_str m)" "j < length (int_to_str m)" "i \<noteq> j"
  show "int_to_str m ! i \<noteq> int_to_str m ! j"
  proof
    assume eq: "int_to_str m ! i = int_to_str m ! j"
    have "str_to_int m (int_to_str m ! i) = Some (int i)"
      using inv \<open>i < length (int_to_str m)\<close> by simp
    moreover have "str_to_int m (int_to_str m ! j) = Some (int j)"
      using inv \<open>j < length (int_to_str m)\<close> by simp
    ultimately show False using eq \<open>i \<noteq> j\<close> by simp
  qed
qed

lemma IDMapper_inv_dom: "IDMapper_inv m \<Longrightarrow> dom (str_to_int m) = set (int_to_str m)"
  unfolding IDMapper_inv_def set_conv_nth
proof (intro equalityI subsetI)
  fix x
  assume inv: "\<forall>x i. (str_to_int m x = Some i) = (0 \<le> i \<and> nat i < length (int_to_str m) \<and> int_to_str m ! nat i = x)"
  { assume "x \<in> dom (str_to_int m)"
    then obtain i where "str_to_int m x = Some i" by auto
    with inv have "nat i < length (int_to_str m) \<and> int_to_str m ! nat i = x" by simp
    then show "x \<in> {int_to_str m ! i |i. i < length (int_to_str m)}" by blast }
  { assume "x \<in> {int_to_str m ! i |i. i < length (int_to_str m)}"
    then obtain i where "i < length (int_to_str m)" "int_to_str m ! i = x" by auto
    with inv have "str_to_int m x = Some (int i)" by simp
    then show "x \<in> dom (str_to_int m)" by auto }
qed

lemma IDMapper_inv_card:
  "IDMapper_inv m \<Longrightarrow> card (dom (str_to_int m)) = length (int_to_str m)"
  by (simp add: IDMapper_inv_dom IDMapper_inv_distinct distinct_card)

lemma built_inv: "IDMapper_inv (built xs)"
  unfolding built_def by (rule get_or_create_all_inv) (rule IDMapper_inv_init)

lemma built_dom: "dom (str_to_int (built xs)) = set xs"
  by (simp add: built_def get_or_create_all_dom IDMapper_init_def)

lemma built_size: "size_IDMapper (built xs) = int (card (set xs))"
  using IDMapper_inv_card [OF built_inv, of xs] by (simp add: size_IDMapper_def built_dom)

lemma get_or_create_fresh:
  "\<not> contains_external m x \<Longrightarrow> fst (get_or_create m x) = size_IDMapper m"
  by (simp add: get_or_create_def contains_external_def size_IDMapper_def Let_def)

lemma IDMapper_inv_to_external:
  "IDMapper_inv m \<Longrightarrow> str_to_int m x = Some i \<Longrightarrow> to_external m i = Inr x"
  by (auto simp: IDMapper_inv_def to_external_def list_getitem_def)

lemma IDMapper_inv_to_internal:
  "IDMapper_inv m \<Longrightarrow> 0 \<le> i \<Longrightarrow> i < size_IDMapper m \<Longrightarrow>
   to_internal m (int_to_str m ! nat i) = Inr i"
proof -
  assume inv: "IDMapper_inv m" and i: "0 \<le> i" "i < size_IDMapper m"
  from i have "0 \<le> i \<and> nat i < length (int_to_str m)"
    by (simp add: size_IDMapper_def)
  with inv have "str_to_int m (int_to_str m ! nat i) = Some i"
    by (simp add: IDMapper_inv_def)
  then show ?thesis by (simp add: to_internal_def)
qed

subsection \<open>The claims about the builder\<close>

text \<open>
  Claim C1. Take any sequence \<open>xs\<close> of \<open>get_or_create\<close> calls on a fresh mapper. Each
  call returns an id; two calls with the same external string return the same id; a call
  whose string has not occurred earlier in the sequence finds it unmapped and returns the
  size the mapper had before that call; and after the sequence the size is the number of
  distinct strings of \<open>xs\<close>.
\<close>

theorem get_or_create_sequence:
  "length (fst (get_or_create_all IDMapper_init xs)) = length xs \<and>
   (\<forall>j < length xs. \<forall>k < length xs.
      xs ! j = xs ! k \<longrightarrow>
      fst (get_or_create_all IDMapper_init xs) ! j = fst (get_or_create_all IDMapper_init xs) ! k) \<and>
   (\<forall>k < length xs.
      xs ! k \<notin> set (take k xs) \<longrightarrow>
      \<not> contains_external (built (take k xs)) (xs ! k) \<and>
      fst (get_or_create_all IDMapper_init xs) ! k = size_IDMapper (built (take k xs))) \<and>
   size_IDMapper (built xs) = int (card (set xs))"
proof (intro conjI allI impI)
  show "length (fst (get_or_create_all IDMapper_init xs)) = length xs"
    by (rule get_or_create_all_length)
next
  fix j k
  assume "j < length xs" "k < length xs" "xs ! j = xs ! k"
  let ?r = "get_or_create_all IDMapper_init xs"
  have "str_to_int (snd ?r) (xs ! j) = Some (fst ?r ! j)"
    using \<open>j < length xs\<close> by (rule get_or_create_all_maps)
  moreover have "str_to_int (snd ?r) (xs ! k) = Some (fst ?r ! k)"
    using \<open>k < length xs\<close> by (rule get_or_create_all_maps)
  ultimately show "fst ?r ! j = fst ?r ! k"
    using \<open>xs ! j = xs ! k\<close> by simp
next
  fix k
  assume k: "k < length xs" and new: "xs ! k \<notin> set (take k xs)"
  from new have "xs ! k \<notin> dom (str_to_int (built (take k xs)))"
    by (simp add: built_dom)
  then show fresh: "\<not> contains_external (built (take k xs)) (xs ! k)"
    by (auto simp: contains_external_def)
  have "fst (get_or_create_all IDMapper_init xs) ! k
        = fst (get_or_create (built (take k xs)) (xs ! k))"
    unfolding built_def using k by (rule get_or_create_all_nth)
  with fresh show "fst (get_or_create_all IDMapper_init xs) ! k = size_IDMapper (built (take k xs))"
    by (simp add: get_or_create_fresh)
next
  show "size_IDMapper (built xs) = int (card (set xs))"
    by (rule built_size)
qed

theorem get_or_create_sequence_witness:
  "fst (get_or_create_all IDMapper_init [''X'', ''Y'', ''X'']) = [0, 1, 0] \<and>
   fst (get_or_create_all IDMapper_init [''X'', ''Y'', ''X'']) ! 0 =
   fst (get_or_create_all IDMapper_init [''X'', ''Y'', ''X'']) ! 2 \<and>
   ''Y'' \<notin> set (take 1 [''X'', ''Y'', ''X'']) \<and>
   fst (get_or_create_all IDMapper_init [''X'', ''Y'', ''X'']) ! 1 = size_IDMapper (built [''X'']) \<and>
   size_IDMapper (built [''X'', ''Y'', ''X'']) = 2"
  using get_or_create_sequence [of "[''X'', ''Y'', ''X'']"]
  by (simp add: built_def get_or_create_def IDMapper_init_def size_IDMapper_def Let_def)

text \<open>
  Claim C2. In every mapper a sequence of calls builds, and for every string \<open>x\<close> of any
  character type and any length, \<open>to_external\<close> of the id that \<open>get_or_create x\<close>
  returns is \<open>x\<close>. The instance below has a string of code points beyond ASCII and a
  string of 2000 characters.
\<close>

theorem to_external_get_or_create:
  "to_external (snd (get_or_create (built xs) x)) (fst (get_or_create (built xs) x)) = Inr x"
proof (rule IDMapper_inv_to_external)
  show "IDMapper_inv (snd (get_or_create (built xs) x))"
    by (rule IDMapper_inv_step) (rule built_inv)
  show "str_to_int (snd (get_or_create (built xs) x)) x = Some (fst (get_or_create (built xs) x))"
    by (rule get_or_create_maps)
qed

theorem to_external_get_or_create_witness:
  "to_external
     (snd (get_or_create (built [[78, 89]]) [84, 333, 107, 121, 333, 95, 26481, 20140]))
     (fst (get_or_create (built [[78, 89]]) [84, 333, 107, 121, 333, 95, 26481, 20140 :: nat]))
     = Inr [84, 333, 107, 121, 333, 95, 26481, 20140 :: nat] \<and>
   to_external
     (snd (get_or_create (built []) (replicate 2000 CHR ''A'')))
     (fst (get_or_create (built []) (replicate 2000 CHR ''A'')))
     = Inr (replicate 2000 CHR ''A'')"
  by (intro conjI to_external_get_or_create)

text \<open>
  Claim C3. For every mapper and every integer \<open>i\<close>, \<open>to_external\<close> raises
  \<open>IndexError\<close> exactly when \<open>i\<close> is negative or at least the size, it raises nothing
  else, and otherwise it returns the string at position \<open>i\<close>. So \<open>-1\<close> and every
  \<open>n\<close> from the size upwards fail, whereas the bare list subscript at \<open>-1\<close> would
  return the last string of a non-empty list.
\<close>

theorem to_external_out_of_range:
  "(to_external m i = Inl IndexError \<longleftrightarrow> i < 0 \<or> size_IDMapper m \<le> i) \<and>
   (\<forall>e. to_external m i = Inl e \<longrightarrow> e = IndexError) \<and>
   (0 \<le> i \<and> i < size_IDMapper m \<longrightarrow> to_external m i = Inr (int_to_str m ! nat i)) \<and>
   to_external m (- 1) = Inl IndexError \<and>
   (\<forall>n. size_IDMapper m \<le> n \<longrightarrow> to_external m n = Inl IndexError) \<and>
   (int_to_str m \<noteq> [] \<longrightarrow> list_getitem (int_to_str m) (- 1) = Inr (last (int_to_str m)))"
proof -
  have wrap: "int_to_str m \<noteq> [] \<longrightarrow> list_getitem (int_to_str m) (- 1) = Inr (last (int_to_str m))"
  proof
    assume ne: "int_to_str m \<noteq> []"
    then have pos: "Suc 0 \<le> length (int_to_str m)"
      by (cases "int_to_str m") simp_all
    then have "nat (int (length (int_to_str m)) + - 1) = length (int_to_str m) - 1" by simp
    with pos ne show "list_getitem (int_to_str m) (- 1) = Inr (last (int_to_str m))"
      by (simp add: list_getitem_def last_conv_nth)
  qed
  have rest: "(to_external m i = Inl IndexError \<longleftrightarrow> i < 0 \<or> size_IDMapper m \<le> i) \<and>
    (\<forall>e. to_external m i = Inl e \<longrightarrow> e = IndexError) \<and>
    (0 \<le> i \<and> i < size_IDMapper m \<longrightarrow> to_external m i = Inr (int_to_str m ! nat i)) \<and>
    to_external m (- 1) = Inl IndexError \<and>
    (\<forall>n. size_IDMapper m \<le> n \<longrightarrow> to_external m n = Inl IndexError)"
    by (auto simp: to_external_def list_getitem_def size_IDMapper_def)
  from rest wrap show ?thesis by blast
qed

theorem to_external_out_of_range_witness:
  "to_external (built [''Existing'']) (- 1) = Inl IndexError \<and>
   to_external (built [''Existing'']) 1 = Inl IndexError \<and>
   to_external (built [''Existing'']) 0 = Inr ''Existing'' \<and>
   list_getitem (int_to_str (built [''Existing''])) (- 1) = Inr ''Existing''"
  using to_external_out_of_range [of "built [''Existing'']" 0]
    to_external_out_of_range [of "built [''Existing'']" 1]
  by (simp add: built_def get_or_create_def IDMapper_init_def size_IDMapper_def Let_def)

text \<open>
  Claim C4. In the mapper built by the calls \<open>xs\<close>, \<open>to_internal\<close> raises \<open>KeyError\<close>
  for every string that is not among \<open>xs\<close>, and for the string of the \<open>k\<close>-th call it
  returns the id that call returned.
\<close>

theorem to_internal_registered:
  "(x \<notin> set xs \<longrightarrow> to_internal (built xs) x = Inl KeyError) \<and>
   (\<forall>k < length xs.
      to_internal (built xs) (xs ! k) = Inr (fst (get_or_create_all IDMapper_init xs) ! k))"
proof (intro conjI allI impI)
  assume "x \<notin> set xs"
  then have "x \<notin> dom (str_to_int (built xs))" by (simp add: built_dom)
  then show "to_internal (built xs) x = Inl KeyError"
    by (auto simp: to_internal_def split: option.splits)
next
  fix k assume "k < length xs"
  then have "str_to_int (built xs) (xs ! k) = Some (fst (get_or_create_all IDMapper_init xs) ! k)"
    unfolding built_def by (rule get_or_create_all_maps)
  then show "to_internal (built xs) (xs ! k) = Inr (fst (get_or_create_all IDMapper_init xs) ! k)"
    by (simp add: to_internal_def)
qed

theorem to_internal_registered_witness:
  "''NonExistent'' \<notin> set [''Existing''] \<and>
   to_internal (built [''Existing'']) ''NonExistent'' = Inl KeyError \<and>
   to_internal (built [''Existing'']) ''Existing'' = Inr 0"
  using to_internal_registered [of "''NonExistent''" "[''Existing'']"]
  by (simp add: get_or_create_def IDMapper_init_def Let_def)

text \<open>
  Claim C8. After every sequence of calls the invariant holds: the dict maps \<open>x\<close> to
  \<open>i\<close> exactly when \<open>i\<close> is a position of the list and the list holds \<open>x\<close> there; the
  dict has finitely many keys, as many as the list has elements.
\<close>

theorem IDMapper_invariant:
  "IDMapper_inv (built xs) \<and>
   finite (dom (str_to_int (built xs))) \<and>
   length (int_to_str (built xs)) = card (dom (str_to_int (built xs)))"
  using IDMapper_inv_card [OF built_inv, of xs] by (simp add: built_inv built_dom)

theorem IDMapper_invariant_witness:
  "IDMapper_inv (built [''A'', ''B'', ''A'']) \<and>
   card (dom (str_to_int (built [''A'', ''B'', ''A'']))) = 2"
  using IDMapper_invariant [of "[''A'', ''B'', ''A'']"]
  by (simp add: built_def get_or_create_def IDMapper_init_def Let_def)

text \<open>
  Claim C9. In every mapper a sequence of calls builds, and for every id \<open>i\<close> from
  \<open>0\<close> below the size, \<open>to_external i\<close> returns a string and \<open>to_internal\<close> of that
  string returns \<open>i\<close>.
\<close>

theorem to_internal_to_external:
  assumes "0 \<le> i" "i < size_IDMapper (built xs)"
  shows "\<exists>s. to_external (built xs) i = Inr s \<and> to_internal (built xs) s = Inr i"
proof -
  have "to_external (built xs) i = Inr (int_to_str (built xs) ! nat i)"
    using assms by (simp add: to_external_def list_getitem_def size_IDMapper_def)
  moreover have "to_internal (built xs) (int_to_str (built xs) ! nat i) = Inr i"
    using built_inv assms by (rule IDMapper_inv_to_internal)
  ultimately show ?thesis by blast
qed

theorem to_internal_to_external_witness:
  "(0 :: int) \<le> 1 \<and> 1 < size_IDMapper (built [''A'', ''B'']) \<and>
   (\<exists>s. to_external (built [''A'', ''B'']) 1 = Inr s \<and> to_internal (built [''A'', ''B'']) s = Inr 1)"
proof -
  have lt: "1 < size_IDMapper (built [''A'', ''B''])"
    by (simp add: built_def get_or_create_def IDMapper_init_def size_IDMapper_def Let_def)
  have le: "(0 :: int) \<le> 1" by simp
  show ?thesis using le lt to_internal_to_external [OF le lt] by simp
qed

text \<open>
  Claim C10. For every mapper and every string \<open>y\<close>, the call \<open>get_or_create y\<close> leaves
  \<open>to_external i\<close> as it was for every id \<open>i\<close> from \<open>0\<close> below the old size, leaves
  \<open>to_internal x\<close> as it was for every string \<open>x\<close> the mapper contained, and leaves the
  size unchanged when \<open>y\<close> was contained and one larger when it was not. Before and
  after the call, \<open>contains_internal i\<close> says whether \<open>i\<close> lies from \<open>0\<close> below the
  size.
\<close>

theorem get_or_create_frame:
  "(\<forall>i. 0 \<le> i \<and> i < size_IDMapper m \<longrightarrow>
      to_external (snd (get_or_create m y)) i = to_external m i) \<and>
   (\<forall>x. contains_external m x \<longrightarrow>
      to_internal (snd (get_or_create m y)) x = to_internal m x) \<and>
   (contains_external m y \<longrightarrow> size_IDMapper (snd (get_or_create m y)) = size_IDMapper m) \<and>
   (\<not> contains_external m y \<longrightarrow> size_IDMapper (snd (get_or_create m y)) = size_IDMapper m + 1) \<and>
   (\<forall>i. contains_internal m i \<longleftrightarrow> 0 \<le> i \<and> i < size_IDMapper m) \<and>
   (\<forall>i. contains_internal (snd (get_or_create m y)) i \<longleftrightarrow>
      0 \<le> i \<and> i < size_IDMapper (snd (get_or_create m y)))"
  by (auto simp: get_or_create_def to_external_def to_internal_def contains_external_def
      contains_internal_def size_IDMapper_def list_getitem_def Let_def nth_append
      split: option.splits)

theorem get_or_create_frame_witness:
  "contains_external (built [''A'']) ''A'' \<and> \<not> contains_external (built [''A'']) ''B'' \<and>
   to_external (snd (get_or_create (built [''A'']) ''B'')) 0 = to_external (built [''A'']) 0 \<and>
   to_internal (snd (get_or_create (built [''A'']) ''B'')) ''A'' = to_internal (built [''A'']) ''A'' \<and>
   size_IDMapper (snd (get_or_create (built [''A'']) ''A'')) = 1 \<and>
   size_IDMapper (snd (get_or_create (built [''A'']) ''B'')) = 2 \<and>
   contains_internal (built [''A'']) 0 \<and> \<not> contains_internal (built [''A'']) 9999"
  using get_or_create_frame [of "built [''A'']" "''B''"] get_or_create_frame [of "built [''A'']" "''A''"]
  by (simp add: built_def get_or_create_def IDMapper_init_def size_IDMapper_def
      contains_external_def contains_internal_def to_external_def to_internal_def
      list_getitem_def Let_def)

section \<open>Properties of \<open>export_mappings\<close>\<close>

text \<open>
  On the store, \<open>get_or_create\<close> computes what it computes on values, keeps the
  builder's address and the size of the store, and touches no other dict. A builder made
  by \<open>__init__\<close> holds an address of the store, and keeps one under every call; the
  store with the one dict \<open>[''A'' \<mapsto> 0]\<close> is what \<open>__init__\<close> and one call produce.
\<close>

lemma load_obj_get_or_create:
  "str_to_int_ref self < length s \<Longrightarrow>
   load (fst (snd (obj_get_or_create s self x))) (snd (snd (obj_get_or_create s self x)))
     = snd (get_or_create (load s self) x)"
  by (simp add: obj_get_or_create_def load_def split_beta)

lemma obj_get_or_create_length:
  "length (fst (snd (obj_get_or_create s self x))) = length s"
  by (simp add: obj_get_or_create_def split_beta)

lemma obj_get_or_create_ref:
  "str_to_int_ref (snd (snd (obj_get_or_create s self x))) = str_to_int_ref self"
  by (simp add: obj_get_or_create_def split_beta)

lemma obj_get_or_create_other:
  "r \<noteq> str_to_int_ref self \<Longrightarrow> fst (snd (obj_get_or_create s self x)) ! r = s ! r"
  by (simp add: obj_get_or_create_def split_beta)

lemma load_dict_mutate:
  "r \<noteq> str_to_int_ref self \<Longrightarrow> load (dict_mutate s r f) self = load s self"
  by (simp add: load_def dict_mutate_def)

lemma after_export_isolated:
  "str_to_int_ref self < length s \<Longrightarrow> r < length s \<Longrightarrow> r \<noteq> str_to_int_ref self \<Longrightarrow>
   load (fst (after_export r (s, self) acts)) (snd (after_export r (s, self) acts))
     = snd (get_or_create_all (load s self) (builder_calls acts)) \<and>
   fst (after_export r (s, self) acts) ! r = mutations acts (s ! r)"
proof (induction acts arbitrary: s self)
  case Nil
  then show ?case by simp
next
  case (Cons a acts)
  show ?case
  proof (cases a)
    case (Mutate_exported f)
    have "load (dict_mutate s r f) self = load s self"
      using Cons.prems by (simp add: load_dict_mutate)
    moreover have "dict_mutate s r f ! r = f (s ! r)"
      using Cons.prems by (simp add: dict_mutate_def)
    moreover have "length (dict_mutate s r f) = length s"
      by (simp add: dict_mutate_def)
    ultimately show ?thesis
      using Cons.IH [of self "dict_mutate s r f"] Cons.prems Mutate_exported by simp
  next
    case (Call_get_or_create x)
    obtain i s1 self1 where step: "obj_get_or_create s self x = (i, s1, self1)"
      by (cases "obj_get_or_create s self x") auto
    have fr: "length s1 = length s" "str_to_int_ref self1 = str_to_int_ref self" "s1 ! r = s ! r"
      using obj_get_or_create_length [of s self x] obj_get_or_create_ref [of s self x]
        obj_get_or_create_other [of r self s x] step Cons.prems by simp_all
    have ld: "load s1 self1 = snd (get_or_create (load s self) x)"
      using load_obj_get_or_create [of self s x] step Cons.prems by simp
    show ?thesis
      using Cons.IH [of self1 s1] Cons.prems fr ld step Call_get_or_create
      by (simp add: split_beta)
  qed
qed

lemma IDMapper_obj_init_valid:
  "str_to_int_ref (snd (IDMapper_obj_init s)) < length (fst (IDMapper_obj_init s)) \<and>
   load (fst (IDMapper_obj_init s)) (snd (IDMapper_obj_init s)) = IDMapper_init"
  by (simp add: IDMapper_obj_init_def load_def IDMapper_init_def)

lemma obj_get_or_create_valid:
  "str_to_int_ref self < length s \<Longrightarrow>
   str_to_int_ref (snd (snd (obj_get_or_create s self x)))
     < length (fst (snd (obj_get_or_create s self x)))"
  by (simp add: obj_get_or_create_length obj_get_or_create_ref)

lemma obj_get_or_create_after_init:
  "obj_get_or_create (fst (IDMapper_obj_init [])) (snd (IDMapper_obj_init [])) ''A''
     = (0, [[''A'' \<mapsto> 0]], \<lparr>str_to_int_ref = 0, int_to_str_val = [''A'']\<rparr>)"
  by (simp add: obj_get_or_create_def IDMapper_obj_init_def load_def get_or_create_def)

lemma obj_get_or_create_result:
  "fst (obj_get_or_create s self x) = fst (get_or_create (load s self) x)"
  by (simp add: obj_get_or_create_def split_beta)

text \<open>
  Claim C5. Let the builder's dict be an object of the store, and let \<open>export_mappings\<close>
  return the address \<open>r\<close>. The dict at \<open>r\<close> equals the builder's forward mapping at the
  time of the call, and the builder is as before. Whatever change \<open>f\<close> the caller then
  makes to the dict at \<open>r\<close>, the builder's \<open>size\<close>, \<open>to_external\<close>,
  \<open>to_internal\<close>, \<open>contains_external\<close> and \<open>contains_internal\<close> answer as before the
  export; a \<open>get_or_create\<close> call on the builder leaves the dict at \<open>r\<close> as it is. More
  generally, after any interleaving of such changes and calls, the builder is the one its
  calls alone produce, and the dict at \<open>r\<close> is the one the changes alone produce.
\<close>

theorem export_mappings_isolated:
  assumes "str_to_int_ref self < length s"
  shows "case export_mappings s self of
           (r, s1) \<Rightarrow>
             s1 ! r = str_to_int (load s self) \<and>
             load s1 self = load s self \<and>
             (\<forall>f i x.
                size_IDMapper (load (dict_mutate s1 r f) self) = size_IDMapper (load s self) \<and>
                to_external (load (dict_mutate s1 r f) self) i = to_external (load s self) i \<and>
                to_internal (load (dict_mutate s1 r f) self) x = to_internal (load s self) x \<and>
                contains_external (load (dict_mutate s1 r f) self) x
                  = contains_external (load s self) x \<and>
                contains_internal (load (dict_mutate s1 r f) self) i
                  = contains_internal (load s self) i) \<and>
             (\<forall>y. fst (snd (obj_get_or_create s1 self y)) ! r = s1 ! r) \<and>
             (\<forall>acts.
                load (fst (after_export r (s1, self) acts)) (snd (after_export r (s1, self) acts))
                  = snd (get_or_create_all (load s self) (builder_calls acts)) \<and>
                fst (after_export r (s1, self) acts) ! r
                  = mutations acts (str_to_int (load s self)))"
proof -
  let ?r = "length s" and ?s1 = "s @ [s ! str_to_int_ref self]"
  have ne: "?r \<noteq> str_to_int_ref self" using assms by simp
  have a: "?s1 ! ?r = str_to_int (load s self)" by (simp add: load_def)
  have b: "load ?s1 self = load s self" using assms by (simp add: load_def nth_append)
  have c: "\<And>f. load (dict_mutate ?s1 ?r f) self = load s self"
    using ne b by (simp add: load_dict_mutate)
  have d: "\<And>y. fst (snd (obj_get_or_create ?s1 self y)) ! ?r = ?s1 ! ?r"
    using ne by (rule obj_get_or_create_other)
  have e: "\<And>acts.
      load (fst (after_export ?r (?s1, self) acts)) (snd (after_export ?r (?s1, self) acts))
        = snd (get_or_create_all (load s self) (builder_calls acts)) \<and>
      fst (after_export ?r (?s1, self) acts) ! ?r = mutations acts (str_to_int (load s self))"
    using after_export_isolated [of self ?s1 ?r] assms ne a b by simp
  show ?thesis
    unfolding export_mappings_def prod.case
    using a b c d e by (intro conjI allI) simp_all
qed

theorem export_mappings_isolated_witness:
  "str_to_int_ref \<lparr>str_to_int_ref = 0, int_to_str_val = [''A'']\<rparr> < length [[''A'' \<mapsto> 0 :: int]] \<and>
   fst (export_mappings [[''A'' \<mapsto> 0]] \<lparr>str_to_int_ref = 0, int_to_str_val = [''A'']\<rparr>) = 1 \<and>
   (snd (export_mappings [[''A'' \<mapsto> 0]] \<lparr>str_to_int_ref = 0, int_to_str_val = [''A'']\<rparr>) ! 1) ''A''
     = Some 0 \<and>
   \<not> contains_external
      (load (dict_mutate
               (snd (export_mappings [[''A'' \<mapsto> 0]] \<lparr>str_to_int_ref = 0, int_to_str_val = [''A'']\<rparr>))
               1 (\<lambda>d. d(''C'' \<mapsto> 999)))
         \<lparr>str_to_int_ref = 0, int_to_str_val = [''A'']\<rparr>) ''C'' \<and>
   (fst (snd (obj_get_or_create
                (snd (export_mappings [[''A'' \<mapsto> 0]] \<lparr>str_to_int_ref = 0, int_to_str_val = [''A'']\<rparr>))
                \<lparr>str_to_int_ref = 0, int_to_str_val = [''A'']\<rparr> ''B'')) ! 1) ''B'' = None"
  using export_mappings_isolated
    [of "\<lparr>str_to_int_ref = 0, int_to_str_val = [''A'']\<rparr>" "[[''A'' \<mapsto> 0 :: int]]"]
  by (simp add: export_mappings_def load_def dict_mutate_def contains_external_def
      obj_get_or_create_def get_or_create_def Let_def)

section \<open>Properties of the binary search\<close>

text \<open>
  A value that is not in the vector is never found, whatever the order of the vector,
  and the search stays inside the vector. In a strictly ascending vector the order of two
  elements is the order of their positions, which directs the search to the position of a
  value that is there.
\<close>

lemma find_internal_id_loop_absent:
  "0 \<le> left \<Longrightarrow> right < int (length (external_ids mapping)) \<Longrightarrow>
   ext_id \<notin> sint ` set (external_ids mapping) \<Longrightarrow>
   find_internal_id_loop mapping ext_id left right = Inr (- 1)"
proof (induction mapping ext_id left right rule: find_internal_id_loop.induct)
  case (1 mapping ext_id left right)
  show ?case
  proof (cases "left \<le> right")
    case False
    then show ?thesis by (simp add: find_internal_id_loop.simps)
  next
    case True
    define mid where "mid = (left + right) div 2"
    have mid: "left \<le> mid" "mid \<le> right" using True by (auto simp: mid_def)
    then have rng: "0 \<le> mid" "mid < int (length (external_ids mapping))"
      using "1.prems" by auto
    define mid_val where "mid_val = sint (external_ids mapping ! nat mid)"
    have acc: "ExternalIds mapping mid = Inr mid_val"
      using rng by (simp add: ExternalIds_def mid_val_def)
    have "external_ids mapping ! nat mid \<in> set (external_ids mapping)"
      using rng by (intro nth_mem) auto
    then have ne: "mid_val \<noteq> ext_id" using "1.prems"(3) by (auto simp: mid_val_def)
    show ?thesis
    proof (cases "mid_val < ext_id")
      case lt: True
      have "find_internal_id_loop mapping ext_id (mid + 1) right = Inr (- 1)"
        using True acc ne lt mid rng "1.prems"
        by (intro "1.IH"(1) [OF True mid_def acc ne lt]) auto
      then show ?thesis
        using True acc ne lt
        by (subst find_internal_id_loop.simps) (simp add: mid_def [symmetric] Let_def)
    next
      case ge: False
      have "find_internal_id_loop mapping ext_id left (mid - 1) = Inr (- 1)"
        using True acc ne ge mid rng "1.prems"
        by (intro "1.IH"(2) [OF True mid_def acc ne ge]) auto
      then show ?thesis
        using True acc ne ge
        by (subst find_internal_id_loop.simps) (simp add: mid_def [symmetric] Let_def)
    qed
  qed
qed


lemma sint_strict_nth:
  assumes "sorted_wrt (<) (map sint (ws :: 64 word list))" "i < length ws" "j < length ws"
  shows "sint (ws ! i) < sint (ws ! j) \<longleftrightarrow> i < j"
proof -
  have lt: "\<And>a b. a < b \<Longrightarrow> b < length ws \<Longrightarrow> sint (ws ! a) < sint (ws ! b)"
    using sorted_wrt_nth_less [OF assms(1)] by fastforce
  show ?thesis
  proof
    assume l: "sint (ws ! i) < sint (ws ! j)"
    show "i < j"
    proof (rule ccontr)
      assume "\<not> i < j"
      then have "j < i \<or> j = i" by auto
      then show False using lt [of j i] assms(2) l by auto
    qed
  next
    assume "i < j" then show "sint (ws ! i) < sint (ws ! j)" using lt assms(3) by simp
  qed
qed

lemma find_internal_id_loop_found:
  "sorted_wrt (<) (map sint (external_ids mapping)) \<Longrightarrow>
   p < length (external_ids mapping) \<Longrightarrow> ext_id = sint (external_ids mapping ! p) \<Longrightarrow>
   left \<le> int p \<Longrightarrow> int p \<le> right \<Longrightarrow> 0 \<le> left \<Longrightarrow>
   right < int (length (external_ids mapping)) \<Longrightarrow>
   find_internal_id_loop mapping ext_id left right = Inr (int p)"
proof (induction mapping ext_id left right rule: find_internal_id_loop.induct)
  case (1 mapping ext_id left right)
  have True: "left \<le> right" using "1.prems" by simp
  define mid where "mid = (left + right) div 2"
  have mid: "left \<le> mid" "mid \<le> right" using True by (auto simp: mid_def)
  then have rng: "0 \<le> mid" "mid < int (length (external_ids mapping))"
    using "1.prems" by auto
  define mid_val where "mid_val = sint (external_ids mapping ! nat mid)"
  have acc: "ExternalIds mapping mid = Inr mid_val"
    using rng by (simp add: ExternalIds_def mid_val_def)
  have cmp: "mid_val < ext_id \<longleftrightarrow> nat mid < p" "ext_id < mid_val \<longleftrightarrow> p < nat mid"
    unfolding mid_val_def "1.prems"(3)
    using rng "1.prems"(2) by (simp_all add: sint_strict_nth [OF "1.prems"(1)])
  show ?case
  proof (cases "mid_val = ext_id")
    case eq: True
    with cmp have "nat mid = p" by auto
    then have "mid = int p" using rng by simp
    then show ?thesis
      using True acc eq
      by (subst find_internal_id_loop.simps) (simp add: mid_def [symmetric] Let_def)
  next
    case ne: False
    show ?thesis
    proof (cases "mid_val < ext_id")
      case lt: True
      then have "mid + 1 \<le> int p" using cmp rng by auto
      then have "find_internal_id_loop mapping ext_id (mid + 1) right = Inr (int p)"
        using mid rng "1.prems"
        by (intro "1.IH"(1) [OF True mid_def acc ne lt]) auto
      then show ?thesis
        using True acc ne lt
        by (subst find_internal_id_loop.simps) (simp add: mid_def [symmetric] Let_def)
    next
      case ge: False
      with ne cmp have "int p \<le> mid - 1" using rng by auto
      then have "find_internal_id_loop mapping ext_id left (mid - 1) = Inr (int p)"
        using mid rng "1.prems"
        by (intro "1.IH"(2) [OF True mid_def acc ne ge]) auto
      then show ?thesis
        using True acc ne ge
        by (subst find_internal_id_loop.simps) (simp add: mid_def [symmetric] Let_def)
    qed
  qed
qed

text \<open>
  Claim C6. Let the vector of signed 64-bit external ids be strictly ascending. Then
  \<open>find_internal_id\<close> returns the position of every value that occurs in the vector, and
  \<open>-1\<close> for every integer that does not occur; a result is either \<open>-1\<close> or a position
  of the vector, and no position is negative. On \<open>[100,200,300,400,500]\<close> it returns
  \<open>2\<close> for \<open>300\<close> and \<open>-1\<close> for \<open>250\<close>.
\<close>

theorem find_internal_id_correct:
  assumes "sorted_wrt (<) (map sint (external_ids mapping))"
  shows "(\<forall>p < length (external_ids mapping).
            find_internal_id mapping (sint (external_ids mapping ! p)) = Inr (int p)) \<and>
         (\<forall>x. x \<notin> sint ` set (external_ids mapping) \<longrightarrow> find_internal_id mapping x = Inr (- 1)) \<and>
         (\<forall>x i. find_internal_id mapping x = Inr i \<longrightarrow>
            i = - 1 \<or> (0 \<le> i \<and> i < ExternalIdsLength mapping))"
proof (intro conjI allI impI)
  fix p assume "p < length (external_ids mapping)"
  then show "find_internal_id mapping (sint (external_ids mapping ! p)) = Inr (int p)"
    unfolding find_internal_id_def ExternalIdsLength_def
    using assms by (intro find_internal_id_loop_found) auto
next
  fix x assume "x \<notin> sint ` set (external_ids mapping)"
  then show "find_internal_id mapping x = Inr (- 1)"
    unfolding find_internal_id_def ExternalIdsLength_def
    by (intro find_internal_id_loop_absent) auto
next
  fix x i assume r: "find_internal_id mapping x = Inr i"
  show "i = - 1 \<or> (0 \<le> i \<and> i < ExternalIdsLength mapping)"
  proof (cases "x \<in> sint ` set (external_ids mapping)")
    case False
    then have "find_internal_id mapping x = Inr (- 1)"
      unfolding find_internal_id_def ExternalIdsLength_def
      by (intro find_internal_id_loop_absent) auto
    with r show ?thesis by simp
  next
    case True
    then obtain p where p: "p < length (external_ids mapping)" "x = sint (external_ids mapping ! p)"
      by (auto simp: in_set_conv_nth)
    then have "find_internal_id mapping x = Inr (int p)"
      unfolding find_internal_id_def ExternalIdsLength_def
      using assms by (intro find_internal_id_loop_found) auto
    with r p show ?thesis by (simp add: ExternalIdsLength_def)
  qed
qed

theorem find_internal_id_correct_witness:
  "sorted_wrt (<) (map sint (external_ids test_mapping)) \<and>
   find_internal_id test_mapping 300 = Inr 2 \<and>
   250 \<notin> sint ` set (external_ids test_mapping) \<and>
   find_internal_id test_mapping 250 = Inr (- 1)"
  using find_internal_id_correct [of test_mapping]
  by (simp add: test_mapping_def find_internal_id_def ExternalIdsLength_def
      find_internal_id_loop.simps ExternalIds_def Let_def)

section \<open>Properties of the CSR traversal\<close>

text \<open>
  Claim C7. In the topology with \<open>first_edge = [0,2,3,4,4]\<close> and
  \<open>edge_target = [1,2,2,3]\<close>, node 0 has the edge range \<open>(0,2)\<close> and the targets
  \<open>[1,2]\<close>, and node 3 has the range \<open>(4,4)\<close> and no targets. In any topology, a node
  whose two offsets exist and are equal has a range of length 0 and the empty list of
  targets, not an error.
\<close>

theorem csr_neighbors:
  "neighbor_range test_topology 0 = Inr (0, 2) \<and>
   neighbors test_topology 0 = Inr [1, 2] \<and>
   neighbor_range test_topology 3 = Inr (4, 4) \<and>
   neighbors test_topology 3 = Inr [] \<and>
   (\<forall>topo node.
      0 \<le> node \<and> node + 1 < int (length (first_edge topo)) \<and>
      first_edge topo ! nat node = first_edge topo ! nat (node + 1) \<longrightarrow>
      (\<exists>node_start node_end.
         neighbor_range topo node = Inr (node_start, node_end) \<and> node_end - node_start = 0) \<and>
      neighbors topo node = Inr [])"
proof -
  have test: "neighbor_range test_topology 0 = Inr (0, 2) \<and>
      neighbors test_topology 0 = Inr [1, 2] \<and>
      neighbor_range test_topology 3 = Inr (4, 4) \<and>
      neighbors test_topology 3 = Inr []"
    by (simp add: neighbors_def neighbor_range_def FirstEdge_def EdgeTarget_def
        test_topology_def upto.simps)
  have empty: "(\<exists>node_start node_end.
         neighbor_range topo node = Inr (node_start, node_end) \<and> node_end - node_start = 0) \<and>
      neighbors topo node = Inr []"
    if "0 \<le> node \<and> node + 1 < int (length (first_edge topo)) \<and>
      first_edge topo ! nat node = first_edge topo ! nat (node + 1)" for topo node
    using that by (simp add: neighbors_def neighbor_range_def FirstEdge_def)
  from test empty show ?thesis by blast
qed

theorem csr_neighbors_witness:
  "(0 :: int) \<le> 3 \<and> 3 + 1 < int (length (first_edge test_topology)) \<and>
   first_edge test_topology ! nat 3 = first_edge test_topology ! nat (3 + 1) \<and>
   neighbor_range test_topology 3 = Inr (4, 4) \<and>
   neighbors test_topology 3 = Inr [] \<and>
   neighbors test_topology 0 = Inr [1, 2]"
  using csr_neighbors
  by (simp add: test_topology_def)

end
